theory Spec2Isabelle
  imports Main
begin

section \<open>Common vocabulary\<close>

text \<open>
  Python exceptions are values. A computation either returns or raises; in both cases it
  leaves a state behind (what it has printed, what it has written), so both outcomes
  carry it.
\<close>

datatype error =
    UnknownGroupError string
  | AssertionError nat nat
  | UnboundLocalError string

datatype 's outcome = Returned 's | Raised error 's

fun final :: "'s outcome \<Rightarrow> 's" where
  "final (Returned s) = s"
| "final (Raised e s) = s"

fun passes :: "'s outcome \<Rightarrow> bool" where
  "passes (Returned s) = True"
| "passes (Raised e s) = False"

section \<open>users/tests.py: the RuleSet consistency tests\<close>

subsection \<open>The registry\<close>

text \<open>
  \<^verbatim>\<open>RuleSet.RULESET_MODELS\<close> is a dictionary from ruleset name to a list of database
  table names, \<^verbatim>\<open>RuleSet.RULESET_NAMES\<close> a list of names. Both are declared in
  \<^verbatim>\<open>users/models.py\<close> and are parameters here. The dictionary is an association list in
  the order of its keys.
\<close>

type_synonym ruleset_models = "(string \<times> string list) list"

definition keys :: "ruleset_models \<Rightarrow> string list" where
  "keys d = map fst d"

text \<open>
  Modelled from the spec: the declaration of \<^verbatim>\<open>RuleSet.RULESET_MODELS\<close> (in
  \<^verbatim>\<open>users/models.py\<close>) is missing, and with it what the subscript
  \<^verbatim>\<open>RuleSet.RULESET_MODELS[key]\<close> of the tests does at an undeclared key. The registry's
  contract is: \<^verbatim>\<open>resourcesFor(group)\<close> gives the group's resources and fails with
  \<^verbatim>\<open>UnknownGroupError\<close> if the group is not declared.
\<close>

definition resourcesFor :: "ruleset_models \<Rightarrow> string \<Rightarrow> error + string list" where
  "resourcesFor d g =
     (case map_of d g of
        None \<Rightarrow> Inl (UnknownGroupError g)
      | Some ms \<Rightarrow> Inr ms)"

subsection \<open>unittest and print\<close>

definition assertEqual :: "nat \<Rightarrow> nat \<Rightarrow> error + unit" where
  "assertEqual first second =
     (if first = second then Inr () else Inl (AssertionError first second))"

text \<open>\<^verbatim>\<open>print("-", m)\<close> writes the two arguments separated by a blank.\<close>

definition item :: "string \<Rightarrow> string" where
  "item m = ''- '' @ m"

text \<open>
  The pattern \<^verbatim>\<open>if len(xs) > 0: print(header); for x in xs: print("-", x)\<close>, which
  the tests use four times.
\<close>

definition report :: "string \<Rightarrow> string list \<Rightarrow> string list" where
  "report header xs = (if length xs > 0 then header # map item xs else [])"

subsection \<open>test\_ruleset\_models\<close>

definition missing :: "string list \<Rightarrow> ruleset_models \<Rightarrow> string list" where
  "missing names d = filter (\<lambda>name. name \<notin> set (keys d)) names"

definition extra :: "string list \<Rightarrow> ruleset_models \<Rightarrow> string list" where
  "extra names d = filter (\<lambda>name. name \<notin> set names) (keys d)"

text \<open>
  \<^verbatim>\<open>empty = [key for key in keys if len(RuleSet.RULESET_MODELS[key]) == 0]\<close>: the
  comprehension looks every key up, and a failing lookup ends it.
\<close>

fun empty_list :: "ruleset_models \<Rightarrow> string list \<Rightarrow> error + string list" where
  "empty_list d [] = Inr []"
| "empty_list d (key # ks) =
     (case resourcesFor d key of
        Inl e \<Rightarrow> Inl e
      | Inr ms \<Rightarrow>
          (case empty_list d ks of
             Inl e \<Rightarrow> Inl e
           | Inr es \<Rightarrow> Inr (if length ms = 0 then key # es else es)))"

definition missing_header :: string where
  "missing_header = ''The following rulesets do not have models assigned:''"

definition extra_header :: string where
  "extra_header = ''The following rulesets have been improperly added to RULESET_MODELS:''"

definition empty_header :: string where
  "empty_header = ''The following rulesets have empty entries in RULESET_MODELS:''"

text \<open>The state of a test is what it has printed so far.\<close>

definition test_ruleset_models :: "string list \<Rightarrow> ruleset_models \<Rightarrow> string list outcome" where
  "test_ruleset_models names d =
     (let out1 = report missing_header (missing names d);
          out2 = out1 @ report extra_header (extra names d)
      in case empty_list d (keys d) of
           Inl e \<Rightarrow> Raised e out2
         | Inr es \<Rightarrow>
             (let out3 = out2 @ report empty_header es
              in case assertEqual (length (missing names d)) 0 of
                   Inl e \<Rightarrow> Raised e out3
                 | Inr _ \<Rightarrow>
                     (case assertEqual (length (extra names d)) 0 of
                        Inl e \<Rightarrow> Raised e out3
                      | Inr _ \<Rightarrow>
                          (case assertEqual (length es) 0 of
                             Inl e \<Rightarrow> Raised e out3
                           | Inr _ \<Rightarrow> Returned out3))))"

subsection \<open>test\_model\_names\<close>

text \<open>A Django model class, as far as the test reads it: its \<^verbatim>\<open>_meta.db_table\<close>.\<close>

record model =
  db_table :: string

definition available_tables :: "model list \<Rightarrow> string list" where
  "available_tables available_models = map db_table available_models"

text \<open>The local variables of the checking loop, and what it has printed.\<close>

record check_state =
  printed :: "string list"
  errors :: nat
  assigned_models :: "string list"

definition invalid_line :: "string \<Rightarrow> string" where
  "invalid_line m = m @ '' is not a valid database table''"

text \<open>The inner loop \<^verbatim>\<open>for m in models\<close>.\<close>

fun check_models :: "string list \<Rightarrow> string list \<Rightarrow> check_state \<Rightarrow> check_state" where
  "check_models tables [] s = s"
| "check_models tables (m # ms) s =
     (let s1 = s\<lparr>assigned_models := assigned_models s @ [m]\<rparr>;
          s2 = (if m \<notin> set tables
                then s1\<lparr>printed := printed s1 @ [invalid_line m], errors := errors s1 + 1\<rparr>
                else s1)
      in check_models tables ms s2)"

text \<open>The outer loop \<^verbatim>\<open>for key in RuleSet.RULESET_MODELS.keys()\<close>.\<close>

fun check_keys ::
  "string list \<Rightarrow> ruleset_models \<Rightarrow> string list \<Rightarrow> check_state \<Rightarrow> check_state outcome" where
  "check_keys tables d [] s = Returned s"
| "check_keys tables d (key # ks) s =
     (case resourcesFor d key of
        Inl e \<Rightarrow> Raised e s
      | Inr models \<Rightarrow> check_keys tables d ks (check_models tables models s))"

text \<open>
  For the statements below: the models the registry lists under the keys \<open>ks\<close>, in the
  order in which the two loops visit them.
\<close>

abbreviation declared :: "ruleset_models \<Rightarrow> string list \<Rightarrow> string list" where
  "declared d ks \<equiv>
     concat (map (\<lambda>k. case resourcesFor d k of Inr ms \<Rightarrow> ms | Inl e \<Rightarrow> []) ks)"

definition missing_models :: "string list \<Rightarrow> string list \<Rightarrow> string list" where
  "missing_models tables assigned = filter (\<lambda>model. model \<notin> set assigned) tables"

definition warning_header :: string where
  "warning_header =
     ''WARNING: The following database models are not covered by the define RuleSet permissions:''"

definition test_model_names :: "model list \<Rightarrow> ruleset_models \<Rightarrow> string list outcome" where
  "test_model_names available_models d =
     (let tables = available_tables available_models
      in case check_keys tables d (keys d)
                \<lparr>printed = [], errors = 0, assigned_models = []\<rparr> of
           Raised e s \<Rightarrow> Raised e (printed s)
         | Returned s \<Rightarrow>
             (case assertEqual (errors s) 0 of
                Inl e \<Rightarrow> Raised e (printed s)
              | Inr _ \<Rightarrow>
                  Returned (printed s @
                    report warning_header (missing_models tables (assigned_models s)))))"

section \<open>InvenTree/apps.py: the startup hooks\<close>

subsection \<open>State and collaborators\<close>

text \<open>
  A value read from the environment or from the configuration file, as far as its truth
  value needs it: \<^verbatim>\<open>None\<close>, \<^verbatim>\<open>False\<close>, \<^verbatim>\<open>0\<close> and the empty string are falsy.
\<close>

datatype pyval = PyNone | PyBool bool | PyInt int | PyStr string

fun truthy :: "pyval \<Rightarrow> bool" where
  "truthy PyNone = False"
| "truthy (PyBool b) = b"
| "truthy (PyInt i) = (i \<noteq> 0)"
| "truthy (PyStr s) = (s \<noteq> [])"

text \<open>Python's \<^verbatim>\<open>a and b\<close> is \<^verbatim>\<open>a\<close> when \<^verbatim>\<open>a\<close> is falsy, else \<^verbatim>\<open>b\<close>.\<close>

definition py_and :: "pyval \<Rightarrow> pyval \<Rightarrow> pyval" where
  "py_and a b = (if truthy a then b else a)"

text \<open>\<^verbatim>\<open>dict.get(key, default)\<close>.\<close>

definition dict_get :: "(string \<rightharpoonup> pyval) \<Rightarrow> string \<Rightarrow> pyval \<Rightarrow> pyval" where
  "dict_get m k fallback = (case m k of None \<Rightarrow> fallback | Some v \<Rightarrow> v)"

text \<open>A row of django\_q's \<^verbatim>\<open>Schedule\<close> table, with the fields the hooks name.\<close>

datatype schedule_type = DAILY | MINUTES

record schedule =
  func :: string
  schedule_type :: schedule_type
  minutes :: "nat option"

datatype level = INFO | WARNING | ERROR

text \<open>The methods of \<^verbatim>\<open>InvenTreeConfig\<close> that \<^verbatim>\<open>ready\<close> calls.\<close>

datatype call =
    RemoveObsoleteTasks
  | StartBackgroundTasks
  | UpdateExchangeRates
  | AddUserOnStartup

text \<open>
  What the hooks can change: the \<^verbatim>\<open>Schedule\<close> table, the rest of the database (users,
  exchange rates; of a type \<open>'db\<close> left open), the records of the logger, the standard
  output, and the history of the calls \<^verbatim>\<open>ready\<close> has made, each with the
  \<^verbatim>\<open>Schedule\<close> table as it was when the call was made.
\<close>

record 'db app_state =
  schedules :: "schedule list"
  db :: 'db
  log :: "(level \<times> string) list"
  stdout :: "string list"
  calls :: "(call \<times> schedule list) list"

text \<open>The result of \<^verbatim>\<open>ExchangeBackend.objects.get(name='InvenTreeExchange')\<close>.\<close>

record backend =
  last_update :: "nat option"
  base_currency :: string

datatype backend_get = Found backend | DoesNotExist | OtherError

text \<open>
  Everything the hooks call that lives outside \<^verbatim>\<open>apps.py\<close>:
  \<^item> \<open>canAppAccessDatabase\<close>, \<open>isInTestMode\<close>: the two functions of \<^verbatim>\<open>InvenTree.ready\<close>;
  \<^item> \<open>schedule_importable\<close>: \<^verbatim>\<open>from django_q.models import Schedule\<close> does not raise
    \<^verbatim>\<open>AppRegistryNotReady\<close>;
  \<^item> \<open>exchange_importable\<close>: none of the three imports of \<^verbatim>\<open>update_exchange_rates\<close>
    raises \<^verbatim>\<open>AppRegistryNotReady\<close>;
  \<^item> \<open>schedule_task\<close>: \<^verbatim>\<open>InvenTree.tasks.schedule_task\<close>, on the \<^verbatim>\<open>Schedule\<close> table;
  \<^item> \<open>currency_code_default\<close>, \<open>exchange_backend\<close>: what the two reads return;
  \<^item> \<open>rates_task\<close>: \<^verbatim>\<open>InvenTree.tasks.update_exchange_rates\<close>, on the database; it
    gives the message of the exception it raised, if any;
  \<^item> \<open>get_setting\<close>: \<^verbatim>\<open>InvenTree.config.get_setting\<close>, from the name of the environment
    variable and the fallback value;
  \<^item> \<open>CONFIG\<close>: \<^verbatim>\<open>settings.CONFIG\<close>, the configuration file as a dictionary;
  \<^item> \<open>create_user\<close>: \<^verbatim>\<open>get_user_model().objects.create_user\<close>, on the database; it
    gives \<open>Inr\<close> \<^verbatim>\<open>str(new_user)\<close>, or \<open>Inl\<close> the message of the exception it raised.
\<close>

record 'db env =
  canAppAccessDatabase :: bool
  isInTestMode :: bool
  schedule_importable :: bool
  exchange_importable :: bool
  schedule_task :: "string \<Rightarrow> schedule_type \<Rightarrow> nat option \<Rightarrow> schedule list \<Rightarrow> schedule list"
  currency_code_default :: string
  exchange_backend :: backend_get
  rates_task :: "'db \<Rightarrow> string option \<times> 'db"
  get_setting :: "string \<Rightarrow> pyval \<Rightarrow> pyval"
  CONFIG :: "string \<rightharpoonup> pyval"
  create_user :: "'db \<Rightarrow> pyval \<Rightarrow> pyval \<Rightarrow> pyval \<Rightarrow> (string + string) \<times> 'db"

definition logger :: "level \<Rightarrow> string \<Rightarrow> 'db app_state \<Rightarrow> 'db app_state" where
  "logger l msg st = st\<lparr>log := log st @ [(l, msg)]\<rparr>"

subsection \<open>remove\_obsolete\_tasks\<close>

definition obsolete :: "string list" where
  "obsolete =
     [''InvenTree.tasks.delete_expired_sessions'',
      ''stock.tasks.delete_old_stock_items'']"

definition remove_obsolete_tasks :: "'db env \<Rightarrow> 'db app_state \<Rightarrow> 'db app_state" where
  "remove_obsolete_tasks env st =
     (if \<not> schedule_importable env then st
      else st\<lparr>schedules := filter (\<lambda>s. func s \<notin> set obsolete) (schedules st)\<rparr>)"

subsection \<open>start\_background\_tasks\<close>

definition call_schedule_task :: "'db env \<Rightarrow> string \<Rightarrow> schedule_type \<Rightarrow> nat option \<Rightarrow>
    'db app_state \<Rightarrow> 'db app_state" where
  "call_schedule_task env taskname ty mins st =
     st\<lparr>schedules := schedule_task env taskname ty mins (schedules st)\<rparr>"

definition start_background_tasks :: "'db env \<Rightarrow> 'db app_state \<Rightarrow> 'db app_state" where
  "start_background_tasks env st =
     (if \<not> schedule_importable env then st
      else
        (let st0 = logger INFO ''Starting background tasks...'' st;
             st1 = call_schedule_task env ''InvenTree.tasks.delete_successful_tasks'' DAILY None st0;
             st2 = call_schedule_task env ''InvenTree.tasks.check_for_updates'' DAILY None st1;
             st3 = call_schedule_task env ''InvenTree.tasks.heartbeat'' MINUTES (Some 15) st2;
             st4 = call_schedule_task env ''InvenTree.tasks.update_exchange_rates'' DAILY None st3;
             st5 = call_schedule_task env ''InvenTree.tasks.delete_old_error_logs'' DAILY None st4
         in call_schedule_task env ''common.tasks.delete_old_notifications'' DAILY None st5))"

subsection \<open>update\_exchange\_rates\<close>

text \<open>
  The first \<^verbatim>\<open>try\<close> only passes on \<^verbatim>\<open>AppRegistryNotReady\<close>, so the next line calls a
  name that was never bound. Any other exception of the second \<^verbatim>\<open>try\<close> returns.
\<close>

definition update_exchange_rates :: "'db env \<Rightarrow> 'db app_state \<Rightarrow> 'db app_state outcome" where
  "update_exchange_rates env st =
     (if \<not> exchange_importable env
      then Raised (UnboundLocalError ''currency_code_default'') st
      else
        (let base = currency_code_default env;
             run = (\<lambda>st1.
               (case rates_task env (db st1) of
                  (None, db') \<Rightarrow> st1\<lparr>db := db'\<rparr>
                | (Some e, db') \<Rightarrow>
                    logger ERROR (''Error updating exchange rates: '' @ e) (st1\<lparr>db := db'\<rparr>)))
         in case exchange_backend env of
              OtherError \<Rightarrow> Returned st
            | DoesNotExist \<Rightarrow>
                Returned (run (logger INFO ''Exchange backend not found - updating'' st))
            | Found b \<Rightarrow>
                (let st1 = (if last_update b = None
                            then logger INFO ''Exchange backend has never been updated'' st
                            else st);
                     st2 = (if \<not> base = base_currency b
                            then logger INFO
                                   (''Base currency changed from '' @ base_currency b
                                      @ '' to '' @ base) st1
                            else st1);
                     update = (last_update b = None \<or> \<not> base = base_currency b)
                 in Returned (if update then run st2 else st2))))"

subsection \<open>add\_user\_on\_startup\<close>

definition add_user :: "'db env \<Rightarrow> pyval" where
  "add_user env =
     get_setting env ''INVENTREE_SET_USER'' (dict_get (CONFIG env) ''set_user'' (PyBool False))"

definition add_email :: "'db env \<Rightarrow> pyval" where
  "add_email env =
     get_setting env ''INVENTREE_SET_EMAIL'' (dict_get (CONFIG env) ''set_email'' (PyBool False))"

definition add_password :: "'db env \<Rightarrow> pyval" where
  "add_password env =
     get_setting env ''INVENTREE_SET_PASSWORD''
       (dict_get (CONFIG env) ''set_password'' (PyBool False))"

definition settings_warning :: string where
  "settings_warning =
     ''Not all required settings for adding a user on startup are present:''
       @ [CHR 0x0A] @ ''INVENTREE_SET_USER, INVENTREE_SET_EMAIL, INVENTREE_SET_PASSWORD''"

definition add_user_on_startup :: "'db env \<Rightarrow> 'db app_state \<Rightarrow> 'db app_state" where
  "add_user_on_startup env st =
     (if \<not> truthy (py_and (py_and (add_user env) (add_email env)) (add_password env))
      then logger WARNING settings_warning st
      else
        (case create_user env (db st) (add_user env) (add_email env) (add_password env) of
           (Inr new_user, db') \<Rightarrow>
             logger INFO (''User '' @ new_user @ '' was created!'') (st\<lparr>db := db'\<rparr>)
         | (Inl e, db') \<Rightarrow> st\<lparr>db := db', stdout := stdout st @ [e]\<rparr>))"

subsection \<open>ready\<close>

text \<open>
  \<^verbatim>\<open>ready\<close> calls a method: the call is recorded, with the \<^verbatim>\<open>Schedule\<close> table
  the method finds, then the method runs.
\<close>

definition invoke :: "call \<Rightarrow> 'db app_state \<Rightarrow> 'db app_state" where
  "invoke c st = st\<lparr>calls := calls st @ [(c, schedules st)]\<rparr>"

definition ready :: "'db env \<Rightarrow> 'db app_state \<Rightarrow> 'db app_state outcome" where
  "ready env st =
     (if canAppAccessDatabase env then
        (let st1 = remove_obsolete_tasks env (invoke RemoveObsoleteTasks st);
             st2 = start_background_tasks env (invoke StartBackgroundTasks st1)
         in if \<not> isInTestMode env then
              (case update_exchange_rates env (invoke UpdateExchangeRates st2) of
                 Raised e st3 \<Rightarrow> Raised e st3
               | Returned st3 \<Rightarrow>
                   Returned (add_user_on_startup env (invoke AddUserOnStartup st3)))
            else Returned (add_user_on_startup env (invoke AddUserOnStartup st2)))
      else Returned st)"

subsection \<open>A small installation, for the examples\<close>

text \<open>
  The database is the list of user names. Settings come from the configuration file
  only, scheduling a task appends a row, and a user whose name is taken is refused.
\<close>

definition example_env :: "string list env" where
  "example_env =
     \<lparr>canAppAccessDatabase = True,
      isInTestMode = False,
      schedule_importable = True,
      exchange_importable = True,
      schedule_task = (\<lambda>taskname ty mins table.
        table @ [\<lparr>func = taskname, schedule_type = ty, minutes = mins\<rparr>]),
      currency_code_default = ''USD'',
      exchange_backend = DoesNotExist,
      rates_task = (\<lambda>users. (None, users)),
      get_setting = (\<lambda>name fallback. fallback),
      CONFIG = [''set_user'' \<mapsto> PyStr ''admin'', ''set_email'' \<mapsto> PyStr ''admin@example.org'',
                ''set_password'' \<mapsto> PyStr ''secret''],
      create_user = (\<lambda>users u e p.
        (case u of
           PyStr name \<Rightarrow>
             if name \<in> set users then (Inl ''UNIQUE constraint failed'', users)
             else (Inr name, users @ [name])
         | _ \<Rightarrow> (Inl ''The given username must be set'', users)))\<rparr>"

definition example_state :: "string list app_state" where
  "example_state =
     \<lparr>schedules =
        [\<lparr>func = ''stock.tasks.delete_old_stock_items'', schedule_type = DAILY, minutes = None\<rparr>,
         \<lparr>func = ''InvenTree.tasks.heartbeat'', schedule_type = MINUTES, minutes = Some 15\<rparr>],
      db = [],
      log = [],
      stdout = [],
      calls = []\<rparr>"

section \<open>Properties of the RuleSet tests\<close>

subsection \<open>Lookups and the three lists\<close>

lemma resourcesFor_declared: "g \<in> set (keys d) \<Longrightarrow> \<exists>ms. resourcesFor d g = Inr ms \<and> (g, ms) \<in> set d"
  unfolding keys_def resourcesFor_def
  by (cases "map_of d g") (auto simp: map_of_eq_None_iff dest: map_of_SomeD)

lemma resourcesFor_undeclared: "g \<notin> set (keys d) \<Longrightarrow> resourcesFor d g = Inl (UnknownGroupError g)"
proof -
  assume "g \<notin> set (keys d)"
  then have "map_of d g = None"
    by (simp add: keys_def map_of_eq_None_iff)
  then show ?thesis by (simp add: resourcesFor_def)
qed

lemma resourcesFor_distinct:
  "distinct (keys d) \<Longrightarrow> (g, ms) \<in> set d \<Longrightarrow> resourcesFor d g = Inr ms"
  unfolding keys_def resourcesFor_def by simp

lemma empty_list_filter:
  "set ks \<subseteq> set (keys d) \<Longrightarrow>
     empty_list d ks = Inr (filter (\<lambda>k. resourcesFor d k = Inr []) ks)"
proof (induction ks)
  case Nil
  show ?case by simp
next
  case (Cons k ks)
  from Cons.prems have "k \<in> set (keys d)" by simp
  then obtain ms where ms: "resourcesFor d k = Inr ms"
    using resourcesFor_declared by blast
  from Cons have ih: "empty_list d ks = Inr (filter (\<lambda>k. resourcesFor d k = Inr []) ks)"
    by simp
  show ?case by (simp add: ms ih)
qed

lemma set_missing: "set (missing names d) = set names - set (keys d)"
  unfolding missing_def by auto

lemma set_extra: "set (extra names d) = set (keys d) - set names"
  unfolding extra_def by auto

lemma missing_extra_Nil:
  "(missing names d = [] \<and> extra names d = []) = (set (keys d) = set names)"
proof -
  have "(missing names d = [] \<and> extra names d = []) =
        (set (missing names d) = {} \<and> set (extra names d) = {})"
    by simp
  also have "\<dots> = (set (keys d) = set names)"
    unfolding set_missing set_extra by auto
  finally show ?thesis .
qed

lemma assertEqual_0: "(assertEqual (length xs) 0 = Inr ()) = (xs = [])"
  unfolding assertEqual_def by simp

lemma test_ruleset_models_eq:
  assumes "empty_list d (keys d) = Inr es"
  shows "test_ruleset_models names d =
     (let out = report missing_header (missing names d) @ report extra_header (extra names d)
                  @ report empty_header es
      in if missing names d \<noteq> [] then Raised (AssertionError (length (missing names d)) 0) out
         else if extra names d \<noteq> [] then Raised (AssertionError (length (extra names d)) 0) out
         else if es \<noteq> [] then Raised (AssertionError (length es) 0) out
         else Returned out)"
  unfolding test_ruleset_models_def Let_def assms
  by (simp add: assertEqual_def)


lemma check_models_eq:
  "check_models tables ms s =
     \<lparr>printed = printed s @ map invalid_line (filter (\<lambda>m. m \<notin> set tables) ms),
      errors = errors s + length (filter (\<lambda>m. m \<notin> set tables) ms),
      assigned_models = assigned_models s @ ms\<rparr>"
  by (induction ms arbitrary: s) (simp_all add: Let_def)

lemma check_keys_eq:
  "set ks \<subseteq> set (keys d) \<Longrightarrow>
     check_keys tables d ks s =
       Returned
         \<lparr>printed = printed s @ map invalid_line (filter (\<lambda>m. m \<notin> set tables) (declared d ks)),
          errors = errors s + length (filter (\<lambda>m. m \<notin> set tables) (declared d ks)),
          assigned_models = assigned_models s @ declared d ks\<rparr>"
proof (induction ks arbitrary: s)
  case Nil
  show ?case by simp
next
  case (Cons k ks)
  from Cons.prems have "k \<in> set (keys d)" by simp
  then obtain ms where ms: "resourcesFor d k = Inr ms"
    using resourcesFor_declared by blast
  from Cons.prems have sub: "set ks \<subseteq> set (keys d)" by simp
  show ?case
    by (simp add: ms Cons.IH [OF sub] check_models_eq)
qed

lemma set_declared:
  "set (declared d ks) = {r. \<exists>g\<in>set ks. \<exists>ms. resourcesFor d g = Inr ms \<and> r \<in> set ms}"
proof (intro set_eqI iffI)
  fix r
  assume "r \<in> set (declared d ks)"
  then obtain k where k: "k \<in> set ks"
      and r: "r \<in> set (case resourcesFor d k of Inr ms \<Rightarrow> ms | Inl e \<Rightarrow> [])"
    by auto
  from r obtain ms where "resourcesFor d k = Inr ms" "r \<in> set ms"
    by (cases "resourcesFor d k") auto
  with k show "r \<in> {r. \<exists>g\<in>set ks. \<exists>ms. resourcesFor d g = Inr ms \<and> r \<in> set ms}"
    by blast
next
  fix r
  assume "r \<in> {r. \<exists>g\<in>set ks. \<exists>ms. resourcesFor d g = Inr ms \<and> r \<in> set ms}"
  then obtain g ms where "g \<in> set ks" "resourcesFor d g = Inr ms" "r \<in> set ms"
    by blast
  then show "r \<in> set (declared d ks)"
    by force
qed

lemma invalid_line_inj: "(invalid_line a = invalid_line b) = (a = b)"
  unfolding invalid_line_def by simp

lemma invalid_line_mem: "(invalid_line r \<in> invalid_line ` A) = (r \<in> A)"
  by (auto simp: invalid_line_inj)

lemma test_model_names_eq:
  "test_model_names available_models d =
     (let tables = available_tables available_models;
          bad = filter (\<lambda>m. m \<notin> set tables) (declared d (keys d))
      in if bad \<noteq> [] then Raised (AssertionError (length bad) 0) (map invalid_line bad)
         else Returned (report warning_header (missing_models tables (declared d (keys d)))))"
  unfolding test_model_names_def Let_def
  by (simp add: check_keys_eq assertEqual_def)


lemma passes_test_ruleset_models:
  assumes "empty_list d (keys d) = Inr es"
  shows "passes (test_ruleset_models names d) =
           (missing names d = [] \<and> extra names d = [] \<and> es = [])"
  by (simp add: test_ruleset_models_eq [OF assms] Let_def)

lemma empty_list_keys:
  "empty_list d (keys d) = Inr (filter (\<lambda>k. resourcesFor d k = Inr []) (keys d))"
  by (rule empty_list_filter) simp

text \<open>
  Claim C1, as the code has it. The list \<open>missing\<close> holds the expected names that are no
  key of the registry and \<open>extra\<close> the keys that are no expected name. The two assertions
  on them (\<^verbatim>\<open>assertEqual(len(missing), 0)\<close> and \<^verbatim>\<open>assertEqual(len(extra), 0)\<close>) hold
  exactly when the key set equals the set of expected names. The test as a whole has a
  third assertion: it passes exactly when the two sets are equal and, in addition, no key
  has an empty list of models.
\<close>

theorem ruleset_keys_match_names:
  "set (missing names d) = set names - set (keys d) \<and>
   set (extra names d) = set (keys d) - set names \<and>
   ((assertEqual (length (missing names d)) 0 = Inr () \<and>
     assertEqual (length (extra names d)) 0 = Inr ()) =
    (set (keys d) = set names)) \<and>
   (passes (test_ruleset_models names d) =
    (set (keys d) = set names \<and> (\<forall>g\<in>set (keys d). resourcesFor d g \<noteq> Inr [])))"
proof (intro conjI)
  show "set (missing names d) = set names - set (keys d)" by (rule set_missing)
  show "set (extra names d) = set (keys d) - set names" by (rule set_extra)
  show "(assertEqual (length (missing names d)) 0 = Inr () \<and>
         assertEqual (length (extra names d)) 0 = Inr ()) =
        (set (keys d) = set names)"
    by (simp only: assertEqual_0 missing_extra_Nil)
  have "passes (test_ruleset_models names d) =
          ((missing names d = [] \<and> extra names d = []) \<and>
           filter (\<lambda>k. resourcesFor d k = Inr []) (keys d) = [])"
    by (simp add: passes_test_ruleset_models [OF empty_list_keys])
  also have "\<dots> = (set (keys d) = set names \<and> (\<forall>g\<in>set (keys d). resourcesFor d g \<noteq> Inr []))"
    by (simp only: missing_extra_Nil filter_empty_conv)
  finally show "passes (test_ruleset_models names d) =
      (set (keys d) = set names \<and> (\<forall>g\<in>set (keys d). resourcesFor d g \<noteq> Inr []))" .
qed

theorem ruleset_keys_match_names_witness:
  "passes (test_ruleset_models [''part'', ''stock'']
             [(''part'', [''part_part'']), (''stock'', [''stock_stockitem''])]) \<and>
   set (missing [''part'', ''stock'']
          [(''part'', [''part_part'']), (''stock'', [''stock_stockitem''])]) = {} \<and>
   \<not> passes (test_ruleset_models [''part'', ''stock''] [(''part'', [''part_part''])])"
  using ruleset_keys_match_names
      [of "[''part'', ''stock'']" "[(''part'', [''part_part'']), (''stock'', [''stock_stockitem''])]"]
    ruleset_keys_match_names [of "[''part'', ''stock'']" "[(''part'', [''part_part''])]"]
  by (simp add: keys_def resourcesFor_def)

text \<open>
  With one expected name \<open>part\<close> and the registry \<open>{part: []}\<close> both lists are empty and
  the key set is the expected set, and still the test raises, on its third assertion.
\<close>

theorem ruleset_keys_match_names_counterexample:
  "missing [''part''] [(''part'', [])] = [] \<and>
   extra [''part''] [(''part'', [])] = [] \<and>
   set (keys [(''part'', [])]) = set [''part''] \<and>
   test_ruleset_models [''part''] [(''part'', [])] =
     Raised (AssertionError 1 0) [empty_header, ''- part'']"
  by (simp add: missing_def extra_def keys_def test_ruleset_models_def resourcesFor_def
      report_def item_def assertEqual_def)

text \<open>
  Claim C2. The comprehension for \<open>empty\<close> succeeds on the registry's own keys; a key is
  in its result exactly when the lookup of the key gives the empty list; and when some key
  has an empty list the test raises an \<^verbatim>\<open>AssertionError\<close> (of a length that is not 0).
\<close>

theorem empty_ruleset_fails:
  "\<exists>es. empty_list d (keys d) = Inr es \<and>
     (\<forall>g\<in>set (keys d). (g \<in> set es) = (resourcesFor d g = Inr [])) \<and>
     ((\<exists>g\<in>set (keys d). resourcesFor d g = Inr []) \<longrightarrow>
        (\<exists>n out. 0 < n \<and> test_ruleset_models names d = Raised (AssertionError n 0) out))"
proof (intro exI conjI)
  let ?es = "filter (\<lambda>k. resourcesFor d k = Inr []) (keys d)"
  show "empty_list d (keys d) = Inr ?es" by (rule empty_list_keys)
  show "\<forall>g\<in>set (keys d). (g \<in> set ?es) = (resourcesFor d g = Inr [])" by simp
  show "(\<exists>g\<in>set (keys d). resourcesFor d g = Inr []) \<longrightarrow>
        (\<exists>n out. 0 < n \<and> test_ruleset_models names d = Raised (AssertionError n 0) out)"
  proof
    assume "\<exists>g\<in>set (keys d). resourcesFor d g = Inr []"
    then have ne: "?es \<noteq> []" by (simp add: filter_empty_conv)
    show "\<exists>n out. 0 < n \<and> test_ruleset_models names d = Raised (AssertionError n 0) out"
    proof (cases "missing names d = []")
      case False
      then show ?thesis
        by (simp add: test_ruleset_models_eq [OF empty_list_keys] Let_def)
    next
      case m: True
      show ?thesis
      proof (cases "extra names d = []")
        case False
        with m show ?thesis
          by (simp add: test_ruleset_models_eq [OF empty_list_keys] Let_def)
      next
        case True
        with m ne show ?thesis
          by (simp add: test_ruleset_models_eq [OF empty_list_keys] Let_def)
      qed
    qed
  qed
qed

theorem empty_ruleset_fails_witness:
  "empty_list [(''part'', []), (''stock'', [''stock_stockitem''])]
      (keys [(''part'', []), (''stock'', [''stock_stockitem''])]) = Inr [''part''] \<and>
   resourcesFor [(''part'', []), (''stock'', [''stock_stockitem''])] ''part'' = Inr [] \<and>
   \<not> passes (test_ruleset_models [''part'', ''stock'']
               [(''part'', []), (''stock'', [''stock_stockitem''])])"
proof -
  let ?d = "[(''part'', []), (''stock'', [''stock_stockitem''])]"
  have e: "empty_list ?d (keys ?d) = Inr [''part'']"
    by (simp add: keys_def resourcesFor_def)
  have r: "resourcesFor ?d ''part'' = Inr []"
    by (simp add: resourcesFor_def)
  have "\<exists>g\<in>set (keys ?d). resourcesFor ?d g = Inr []"
    by (simp add: keys_def resourcesFor_def)
  with empty_ruleset_fails [of ?d "[''part'', ''stock'']"]
  have "\<exists>n out. 0 < n \<and> test_ruleset_models [''part'', ''stock''] ?d = Raised (AssertionError n 0) out"
    by blast
  then have "\<not> passes (test_ruleset_models [''part'', ''stock''] ?d)"
    by auto
  with e r show ?thesis by simp
qed

subsection \<open>The references to database tables\<close>

lemma check_keys_init:
  "check_keys tables d (keys d) \<lparr>printed = [], errors = 0, assigned_models = []\<rparr> =
     Returned
       \<lparr>printed = map invalid_line (filter (\<lambda>m. m \<notin> set tables) (declared d (keys d))),
        errors = length (filter (\<lambda>m. m \<notin> set tables) (declared d (keys d))),
        assigned_models = declared d (keys d)\<rparr>"
  by (simp add: check_keys_eq)

lemma declared_mem:
  "g \<in> set ks \<Longrightarrow> resourcesFor d g = Inr ms \<Longrightarrow> r \<in> set ms \<Longrightarrow> r \<in> set (declared d ks)"
  unfolding set_declared by blast

lemma no_invalid_iff:
  "(filter (\<lambda>m. m \<notin> set tables) (declared d ks) = []) =
     (\<forall>g\<in>set ks. \<forall>ms. resourcesFor d g = Inr ms \<longrightarrow> set ms \<subseteq> set tables)"
  unfolding filter_empty_conv set_declared by blast

text \<open>
  Claim C3. The loops of \<^verbatim>\<open>test_model_names\<close> run to their end on the registry's own keys.
  For every key and every model listed under it, the line that reports the model as no
  valid database table is printed exactly when the model is not among the available
  tables; the assertion on \<open>errors\<close> holds exactly when every listed model is an available
  table; and the test passes exactly when that assertion holds.
\<close>

theorem invalid_references_reported:
  "\<exists>s. check_keys (available_tables available_models) d (keys d)
          \<lparr>printed = [], errors = 0, assigned_models = []\<rparr> = Returned s \<and>
     (\<forall>g\<in>set (keys d). \<forall>ms. resourcesFor d g = Inr ms \<longrightarrow>
        (\<forall>r\<in>set ms. (invalid_line r \<in> set (printed s)) =
                        (r \<notin> set (available_tables available_models)))) \<and>
     ((assertEqual (errors s) 0 = Inr ()) =
        (\<forall>g\<in>set (keys d). \<forall>ms. resourcesFor d g = Inr ms \<longrightarrow>
           set ms \<subseteq> set (available_tables available_models))) \<and>
     (passes (test_model_names available_models d) = (assertEqual (errors s) 0 = Inr ()))"
proof (intro exI conjI)
  let ?tables = "available_tables available_models"
  let ?bad = "filter (\<lambda>m. m \<notin> set ?tables) (declared d (keys d))"
  let ?s = "\<lparr>printed = map invalid_line ?bad, errors = length ?bad,
             assigned_models = declared d (keys d)\<rparr>"
  show "check_keys ?tables d (keys d) \<lparr>printed = [], errors = 0, assigned_models = []\<rparr> =
          Returned ?s"
    by (rule check_keys_init)
  show "\<forall>g\<in>set (keys d). \<forall>ms. resourcesFor d g = Inr ms \<longrightarrow>
          (\<forall>r\<in>set ms. (invalid_line r \<in> set (printed ?s)) = (r \<notin> set ?tables))"
  proof (intro ballI allI impI)
    fix g ms r
    assume "g \<in> set (keys d)" "resourcesFor d g = Inr ms" "r \<in> set ms"
    then have "r \<in> set (declared d (keys d))" by (rule declared_mem)
    then show "(invalid_line r \<in> set (printed ?s)) = (r \<notin> set ?tables)"
      by (simp add: invalid_line_mem)
  qed
  show "(assertEqual (errors ?s) 0 = Inr ()) =
          (\<forall>g\<in>set (keys d). \<forall>ms. resourcesFor d g = Inr ms \<longrightarrow> set ms \<subseteq> set ?tables)"
    by (simp add: assertEqual_0 no_invalid_iff)
  show "passes (test_model_names available_models d) = (assertEqual (errors ?s) 0 = Inr ())"
    by (simp add: test_model_names_eq Let_def assertEqual_0)
qed

theorem invalid_references_reported_witness:
  "passes (test_model_names [\<lparr>db_table = ''part_part''\<rparr>, \<lparr>db_table = ''stock_stockitem''\<rparr>]
             [(''part'', [''part_part'']), (''stock'', [''stock_stockitem''])]) \<and>
   \<not> passes (test_model_names [\<lparr>db_table = ''part_part''\<rparr>]
               [(''part'', [''part_part'']), (''stock'', [''stock_stockitem''])]) \<and>
   invalid_line ''stock_stockitem'' \<in> set (printed (final
      (check_keys (available_tables [\<lparr>db_table = ''part_part''\<rparr>])
         [(''part'', [''part_part'']), (''stock'', [''stock_stockitem''])]
         (keys [(''part'', [''part_part'']), (''stock'', [''stock_stockitem''])])
         \<lparr>printed = [], errors = 0, assigned_models = []\<rparr>)))"
  using invalid_references_reported
      [of "[\<lparr>db_table = ''part_part''\<rparr>, \<lparr>db_table = ''stock_stockitem''\<rparr>]"
          "[(''part'', [''part_part'']), (''stock'', [''stock_stockitem''])]"]
    invalid_references_reported
      [of "[\<lparr>db_table = ''part_part''\<rparr>]"
          "[(''part'', [''part_part'']), (''stock'', [''stock_stockitem''])]"]
  by (auto simp: keys_def resourcesFor_def available_tables_def assertEqual_def)


lemma set_missing_models:
  "set (missing_models tables assigned) = set tables - set assigned"
  unfolding missing_models_def by auto

lemma invalid_exists_iff:
  "(filter (\<lambda>m. m \<notin> set tables) (declared d ks) \<noteq> []) =
     (\<exists>g\<in>set ks. \<exists>ms r. resourcesFor d g = Inr ms \<and> r \<in> set ms \<and> r \<notin> set tables)"
  unfolding no_invalid_iff by blast

text \<open>
  Claim C4. After the loops \<open>assigned_models\<close> holds the models listed under any key, and
  \<open>missing_models\<close> is the available tables that are not among them. When no reference
  is invalid the test returns, whatever \<open>missing_models\<close> is, and has printed it under the
  warning. A reference to a table that does not exist makes \<^verbatim>\<open>test_model_names\<close> fail, and
  a missing ruleset, an extra ruleset or a ruleset with no models each make
  \<^verbatim>\<open>test_ruleset_models\<close> fail.
\<close>

theorem uncovered_only_warns:
  "\<exists>s. check_keys (available_tables available_models) d (keys d)
          \<lparr>printed = [], errors = 0, assigned_models = []\<rparr> = Returned s \<and>
     set (assigned_models s) =
       {r. \<exists>g\<in>set (keys d). \<exists>ms. resourcesFor d g = Inr ms \<and> r \<in> set ms} \<and>
     set (missing_models (available_tables available_models) (assigned_models s)) =
       set (available_tables available_models) - set (assigned_models s) \<and>
     (errors s = 0 \<longrightarrow>
        test_model_names available_models d =
          Returned (report warning_header
            (missing_models (available_tables available_models) (assigned_models s)))) \<and>
     ((\<exists>g\<in>set (keys d). \<exists>ms r. resourcesFor d g = Inr ms \<and> r \<in> set ms \<and>
          r \<notin> set (available_tables available_models)) \<longrightarrow>
        errors s \<noteq> 0 \<and> \<not> passes (test_model_names available_models d)) \<and>
     (missing names d \<noteq> [] \<longrightarrow> \<not> passes (test_ruleset_models names d)) \<and>
     (extra names d \<noteq> [] \<longrightarrow> \<not> passes (test_ruleset_models names d)) \<and>
     ((\<exists>g\<in>set (keys d). resourcesFor d g = Inr []) \<longrightarrow>
        \<not> passes (test_ruleset_models names d))"
proof (intro exI conjI)
  let ?tables = "available_tables available_models"
  let ?bad = "filter (\<lambda>m. m \<notin> set ?tables) (declared d (keys d))"
  let ?s = "\<lparr>printed = map invalid_line ?bad, errors = length ?bad,
             assigned_models = declared d (keys d)\<rparr>"
  show "check_keys ?tables d (keys d) \<lparr>printed = [], errors = 0, assigned_models = []\<rparr> =
          Returned ?s"
    by (rule check_keys_init)
  show "set (assigned_models ?s) =
          {r. \<exists>g\<in>set (keys d). \<exists>ms. resourcesFor d g = Inr ms \<and> r \<in> set ms}"
    by (simp only: check_state.select_convs set_declared)
  show "set (missing_models ?tables (assigned_models ?s)) = set ?tables - set (assigned_models ?s)"
    by (rule set_missing_models)
  show "errors ?s = 0 \<longrightarrow>
          test_model_names available_models d =
            Returned (report warning_header (missing_models ?tables (assigned_models ?s)))"
    by (simp add: test_model_names_eq Let_def)
  show "(\<exists>g\<in>set (keys d). \<exists>ms r. resourcesFor d g = Inr ms \<and> r \<in> set ms \<and> r \<notin> set ?tables) \<longrightarrow>
          errors ?s \<noteq> 0 \<and> \<not> passes (test_model_names available_models d)"
  proof
    assume "\<exists>g\<in>set (keys d). \<exists>ms r. resourcesFor d g = Inr ms \<and> r \<in> set ms \<and> r \<notin> set ?tables"
    then have "?bad \<noteq> []" by (simp only: invalid_exists_iff)
    then show "errors ?s \<noteq> 0 \<and> \<not> passes (test_model_names available_models d)"
      by (simp add: test_model_names_eq Let_def)
  qed
  have p: "passes (test_ruleset_models names d) =
      (missing names d = [] \<and> extra names d = [] \<and>
       filter (\<lambda>k. resourcesFor d k = Inr []) (keys d) = [])"
    by (rule passes_test_ruleset_models [OF empty_list_keys])
  show "missing names d \<noteq> [] \<longrightarrow> \<not> passes (test_ruleset_models names d)"
    by (simp add: p)
  show "extra names d \<noteq> [] \<longrightarrow> \<not> passes (test_ruleset_models names d)"
    by (simp add: p)
  show "(\<exists>g\<in>set (keys d). resourcesFor d g = Inr []) \<longrightarrow> \<not> passes (test_ruleset_models names d)"
    by (simp add: p filter_empty_conv)
qed

theorem uncovered_only_warns_witness:
  "test_model_names
     [\<lparr>db_table = ''part_part''\<rparr>, \<lparr>db_table = ''stock_stockitem''\<rparr>, \<lparr>db_table = ''orders_order''\<rparr>]
     [(''part'', [''part_part'']), (''stock'', [''stock_stockitem''])] =
     Returned [warning_header, ''- orders_order''] \<and>
   \<not> passes (test_model_names [\<lparr>db_table = ''part_part''\<rparr>]
               [(''part'', []), (''legacy'', [''legacy_table''])]) \<and>
   \<not> passes (test_ruleset_models [''part'', ''stock'']
               [(''part'', []), (''legacy'', [''legacy_table''])])"
  using uncovered_only_warns
      [of "[\<lparr>db_table = ''part_part''\<rparr>, \<lparr>db_table = ''stock_stockitem''\<rparr>,
            \<lparr>db_table = ''orders_order''\<rparr>]"
          "[(''part'', [''part_part'']), (''stock'', [''stock_stockitem''])]"
          "[''part'', ''stock'']"]
    uncovered_only_warns
      [of "[\<lparr>db_table = ''part_part''\<rparr>]"
          "[(''part'', []), (''legacy'', [''legacy_table''])]"
          "[''part'', ''stock'']"]
  by (auto simp: keys_def resourcesFor_def available_tables_def missing_models_def
      report_def item_def missing_def)

text \<open>
  The code has no operation that returns the five sets without raising: with the expected
  names \<open>part\<close> and \<open>stock\<close> and a registry that declares only \<open>part\<close>, \<open>missing\<close> is
  not empty and \<^verbatim>\<open>test_ruleset_models\<close> raises an \<^verbatim>\<open>AssertionError\<close>.
\<close>

theorem tests_raise_on_defects_counterexample:
  "missing [''part'', ''stock''] [(''part'', [''part_part''])] = [''stock''] \<and>
   test_ruleset_models [''part'', ''stock''] [(''part'', [''part_part''])] =
     Raised (AssertionError 1 0) [missing_header, ''- stock'']"
  by (simp add: missing_def extra_def keys_def test_ruleset_models_def resourcesFor_def
      report_def item_def assertEqual_def)

lemma length_0_Nil: "(0 < length xs) = (xs \<noteq> [])"
  by simp

text \<open>
  Claim C5, as the code has it. The checks are the two test methods; each is a function of
  its inputs whose only effects are what it prints and the exception it raises.
  \<^verbatim>\<open>test_ruleset_models\<close> prints, each under its header when not empty, the expected
  names that are no key, the keys that are no expected name, and the keys whose lookup
  gives the empty list; it returns exactly when the key set is the set of expected names
  and no key has an empty list, and otherwise raises an \<^verbatim>\<open>AssertionError\<close> of a length
  that is not 0. \<^verbatim>\<open>test_model_names\<close> collects the listed models that are no available
  table: when there is one it prints a line for each and raises an \<^verbatim>\<open>AssertionError\<close>
  carrying their number; only otherwise does it return, having printed under the warning
  the available tables that no ruleset lists. So every invalid reference has its line in
  the output, and makes the test raise.
\<close>

theorem tests_raise_on_defects:
  "final (test_ruleset_models names d) =
     (let ms = filter (\<lambda>n. n \<notin> set (keys d)) names;
          xs = filter (\<lambda>k. k \<notin> set names) (keys d);
          es = filter (\<lambda>k. resourcesFor d k = Inr []) (keys d)
      in (if ms = [] then [] else missing_header # map (\<lambda>x. ''- '' @ x) ms) @
         (if xs = [] then [] else extra_header # map (\<lambda>x. ''- '' @ x) xs) @
         (if es = [] then [] else empty_header # map (\<lambda>x. ''- '' @ x) es)) \<and>
   passes (test_ruleset_models names d) =
     (set (keys d) = set names \<and> (\<forall>k\<in>set (keys d). resourcesFor d k \<noteq> Inr [])) \<and>
   (passes (test_ruleset_models names d) \<or>
    (\<exists>n. 0 < n \<and>
       test_ruleset_models names d =
         Raised (AssertionError n 0) (final (test_ruleset_models names d)))) \<and>
   test_model_names available_models d =
     (let tables = map db_table available_models;
          listed = declared d (keys d);
          bad = filter (\<lambda>m. m \<notin> set tables) listed;
          uncovered = filter (\<lambda>t. t \<notin> set listed) tables
      in if bad = []
         then Returned (if uncovered = [] then []
                        else warning_header # map (\<lambda>x. ''- '' @ x) uncovered)
         else Raised (AssertionError (length bad) 0)
                (map (\<lambda>m. m @ '' is not a valid database table'') bad)) \<and>
   (\<forall>g\<in>set (keys d). \<forall>ms. resourcesFor d g = Inr ms \<longrightarrow>
      (\<forall>r\<in>set ms. r \<notin> db_table ` set available_models \<longrightarrow>
         r @ '' is not a valid database table'' \<in> set (final (test_model_names available_models d)) \<and>
         (\<exists>n. 0 < n \<and>
            test_model_names available_models d =
              Raised (AssertionError n 0) (final (test_model_names available_models d)))))"
proof (intro conjI)
  let ?es = "filter (\<lambda>k. resourcesFor d k = Inr []) (keys d)"
  have eq: "test_ruleset_models names d =
     (let out = report missing_header (missing names d) @ report extra_header (extra names d)
                  @ report empty_header ?es
      in if missing names d \<noteq> [] then Raised (AssertionError (length (missing names d)) 0) out
         else if extra names d \<noteq> [] then Raised (AssertionError (length (extra names d)) 0) out
         else if ?es \<noteq> [] then Raised (AssertionError (length ?es) 0) out
         else Returned out)"
    by (rule test_ruleset_models_eq [OF empty_list_keys])
  show "final (test_ruleset_models names d) =
     (let ms = filter (\<lambda>n. n \<notin> set (keys d)) names;
          xs = filter (\<lambda>k. k \<notin> set names) (keys d);
          es = filter (\<lambda>k. resourcesFor d k = Inr []) (keys d)
      in (if ms = [] then [] else missing_header # map (\<lambda>x. ''- '' @ x) ms) @
         (if xs = [] then [] else extra_header # map (\<lambda>x. ''- '' @ x) xs) @
         (if es = [] then [] else empty_header # map (\<lambda>x. ''- '' @ x) es))"
  proof -
    have "final (test_ruleset_models names d) =
        report missing_header (missing names d) @ report extra_header (extra names d)
          @ report empty_header ?es"
      by (simp add: eq Let_def)
    also have "\<dots> = (let ms = filter (\<lambda>n. n \<notin> set (keys d)) names;
          xs = filter (\<lambda>k. k \<notin> set names) (keys d);
          es = filter (\<lambda>k. resourcesFor d k = Inr []) (keys d)
      in (if ms = [] then [] else missing_header # map (\<lambda>x. ''- '' @ x) ms) @
         (if xs = [] then [] else extra_header # map (\<lambda>x. ''- '' @ x) xs) @
         (if es = [] then [] else empty_header # map (\<lambda>x. ''- '' @ x) es))"
      unfolding report_def item_def missing_def extra_def Let_def length_0_Nil
      by (simp only: if_not_P if_P split: if_splits) auto
    finally show ?thesis .
  qed
  have p: "passes (test_ruleset_models names d) =
      ((missing names d = [] \<and> extra names d = []) \<and> ?es = [])"
    by (simp add: passes_test_ruleset_models [OF empty_list_keys])
  show "passes (test_ruleset_models names d) =
     (set (keys d) = set names \<and> (\<forall>k\<in>set (keys d). resourcesFor d k \<noteq> Inr []))"
    unfolding p by (simp only: missing_extra_Nil filter_empty_conv)
  show "passes (test_ruleset_models names d) \<or>
    (\<exists>n. 0 < n \<and>
       test_ruleset_models names d =
         Raised (AssertionError n 0) (final (test_ruleset_models names d)))"
    by (cases "missing names d = []"; cases "extra names d = []"; cases "?es = []")
       (simp_all add: eq Let_def)
  let ?tables = "map db_table available_models"
  let ?bad = "filter (\<lambda>m. m \<notin> set ?tables) (declared d (keys d))"
  have eq2: "test_model_names available_models d =
      (if ?bad \<noteq> [] then Raised (AssertionError (length ?bad) 0) (map invalid_line ?bad)
       else Returned (report warning_header (missing_models ?tables (declared d (keys d)))))"
    by (simp add: test_model_names_eq Let_def available_tables_def)
  show "test_model_names available_models d =
     (let tables = map db_table available_models;
          listed = declared d (keys d);
          bad = filter (\<lambda>m. m \<notin> set tables) listed;
          uncovered = filter (\<lambda>t. t \<notin> set listed) tables
      in if bad = []
         then Returned (if uncovered = [] then []
                        else warning_header # map (\<lambda>x. ''- '' @ x) uncovered)
         else Raised (AssertionError (length bad) 0)
                (map (\<lambda>m. m @ '' is not a valid database table'') bad))"
  proof (cases "?bad = []")
    case True
    then show ?thesis
      unfolding eq2 Let_def report_def item_def missing_models_def length_0_Nil
      by (simp only: if_P if_not_P not_not refl) auto
  next
    case False
    then show ?thesis
      by (simp add: eq2 Let_def invalid_line_def)
  qed
  show "\<forall>g\<in>set (keys d). \<forall>ms. resourcesFor d g = Inr ms \<longrightarrow>
      (\<forall>r\<in>set ms. r \<notin> db_table ` set available_models \<longrightarrow>
         r @ '' is not a valid database table'' \<in> set (final (test_model_names available_models d)) \<and>
         (\<exists>n. 0 < n \<and>
            test_model_names available_models d =
              Raised (AssertionError n 0) (final (test_model_names available_models d))))"
  proof (intro ballI allI impI)
    fix g ms r
    assume "g \<in> set (keys d)" "resourcesFor d g = Inr ms" "r \<in> set ms"
    then have "r \<in> set (declared d (keys d))" by (rule declared_mem)
    moreover assume "r \<notin> db_table ` set available_models"
    ultimately have mem: "r \<in> set ?bad" by simp
    have ne: "?bad \<noteq> []"
    proof
      assume e: "?bad = []"
      from mem show False unfolding e by simp
    qed
    from mem have "invalid_line r \<in> set (map invalid_line ?bad)"
      by (simp only: set_map invalid_line_mem)
    with ne show "r @ '' is not a valid database table'' \<in> set (final (test_model_names available_models d)) \<and>
         (\<exists>n. 0 < n \<and>
            test_model_names available_models d =
              Raised (AssertionError n 0) (final (test_model_names available_models d)))"
      unfolding eq2 by (simp add: invalid_line_def)
  qed
qed


theorem tests_raise_on_defects_witness:
  "final (test_ruleset_models [''part'', ''stock'']
            [(''part'', []), (''legacy'', [''legacy_table''])]) =
     [missing_header, ''- stock'', extra_header, ''- legacy'', empty_header, ''- part''] \<and>
   \<not> passes (test_ruleset_models [''part'', ''stock'']
               [(''part'', []), (''legacy'', [''legacy_table''])]) \<and>
   test_model_names [\<lparr>db_table = ''part_part''\<rparr>]
       [(''part'', []), (''legacy'', [''legacy_table''])] =
     Raised (AssertionError 1 0) [''legacy_table is not a valid database table''] \<and>
   test_model_names
       [\<lparr>db_table = ''part_part''\<rparr>, \<lparr>db_table = ''stock_stockitem''\<rparr>,
        \<lparr>db_table = ''orders_order''\<rparr>]
       [(''part'', [''part_part'']), (''stock'', [''stock_stockitem''])] =
     Returned [warning_header, ''- orders_order'']"
proof -
  let ?d = "[(''part'', []), (''legacy'', [''legacy_table''])]"
  let ?names = "[''part'', ''stock'']"
  let ?am = "[\<lparr>db_table = ''part_part''\<rparr>]"
  note t = tests_raise_on_defects [of ?names ?d ?am]
  have k: "keys ?d = [''part'', ''legacy'']"
    by (simp add: keys_def)
  have r: "resourcesFor ?d ''part'' = Inr []" "resourcesFor ?d ''legacy'' = Inr [''legacy_table'']"
    by (simp_all add: resourcesFor_def)
  from t have a: "final (test_ruleset_models ?names ?d) =
      [missing_header, ''- stock'', extra_header, ''- legacy'', empty_header, ''- part'']"
    unfolding k by (simp add: r)
  from t have b: "\<not> passes (test_ruleset_models ?names ?d)"
    unfolding k by (simp add: r)
  from t have c: "test_model_names ?am ?d =
      Raised (AssertionError 1 0) [''legacy_table is not a valid database table'']"
    unfolding k by (simp add: r)
  from tests_raise_on_defects
      [of ?names "[(''part'', [''part_part'']), (''stock'', [''stock_stockitem''])]"
          "[\<lparr>db_table = ''part_part''\<rparr>, \<lparr>db_table = ''stock_stockitem''\<rparr>,
            \<lparr>db_table = ''orders_order''\<rparr>]"]
  have e: "test_model_names
       [\<lparr>db_table = ''part_part''\<rparr>, \<lparr>db_table = ''stock_stockitem''\<rparr>,
        \<lparr>db_table = ''orders_order''\<rparr>]
       [(''part'', [''part_part'']), (''stock'', [''stock_stockitem''])] =
     Returned [warning_header, ''- orders_order'']"
    by (simp add: keys_def resourcesFor_def)
  from a b c e show ?thesis by blast
qed

text \<open>
  Claim C6. The lookup of a name that is no key of the registry fails with
  \<^verbatim>\<open>UnknownGroupError\<close>; the lookup of a key returns a list the registry holds under that
  key, and, the keys of a dictionary being distinct, the one list it holds under it.
\<close>

theorem resourcesFor_contract:
  "(g \<notin> set (keys d) \<longrightarrow> resourcesFor d g = Inl (UnknownGroupError g)) \<and>
   (g \<in> set (keys d) \<longrightarrow> (\<exists>ms. (g, ms) \<in> set d \<and> resourcesFor d g = Inr ms)) \<and>
   (distinct (keys d) \<longrightarrow> (\<forall>ms. (g, ms) \<in> set d \<longrightarrow> resourcesFor d g = Inr ms))"
  using resourcesFor_undeclared [of g d] resourcesFor_declared [of g d]
    resourcesFor_distinct [of d g]
  by blast

theorem resourcesFor_contract_witness:
  "resourcesFor [(''part'', [''part_part'']), (''stock'', [''stock_stockitem''])] ''legacy'' =
     Inl (UnknownGroupError ''legacy'') \<and>
   resourcesFor [(''part'', [''part_part'']), (''stock'', [''stock_stockitem''])] ''stock'' =
     Inr [''stock_stockitem'']"
  using resourcesFor_contract
      [of "''legacy''" "[(''part'', [''part_part'']), (''stock'', [''stock_stockitem''])]"]
    resourcesFor_contract
      [of "''stock''" "[(''part'', [''part_part'']), (''stock'', [''stock_stockitem''])]"]
  by (simp add: keys_def)

text \<open>
  Claim C7. On the example of the specification the three lists of
  \<^verbatim>\<open>test_ruleset_models\<close> are empty, the loops of \<^verbatim>\<open>test_model_names\<close> count no invalid
  reference, the only table not covered is \<open>orders_order\<close>, and both tests return.
\<close>

theorem example_passes:
  "missing [''part'', ''stock'']
     [(''part'', [''part_part'']), (''stock'', [''stock_stockitem''])] = [] \<and>
   extra [''part'', ''stock'']
     [(''part'', [''part_part'']), (''stock'', [''stock_stockitem''])] = [] \<and>
   empty_list [(''part'', [''part_part'']), (''stock'', [''stock_stockitem''])]
     (keys [(''part'', [''part_part'']), (''stock'', [''stock_stockitem''])]) = Inr [] \<and>
   check_keys [''part_part'', ''stock_stockitem'', ''orders_order'']
     [(''part'', [''part_part'']), (''stock'', [''stock_stockitem''])]
     (keys [(''part'', [''part_part'']), (''stock'', [''stock_stockitem''])])
     \<lparr>printed = [], errors = 0, assigned_models = []\<rparr> =
     Returned \<lparr>printed = [], errors = 0,
               assigned_models = [''part_part'', ''stock_stockitem'']\<rparr> \<and>
   missing_models [''part_part'', ''stock_stockitem'', ''orders_order'']
     [''part_part'', ''stock_stockitem''] = [''orders_order''] \<and>
   test_ruleset_models [''part'', ''stock'']
     [(''part'', [''part_part'']), (''stock'', [''stock_stockitem''])] = Returned [] \<and>
   test_model_names
     [\<lparr>db_table = ''part_part''\<rparr>, \<lparr>db_table = ''stock_stockitem''\<rparr>,
      \<lparr>db_table = ''orders_order''\<rparr>]
     [(''part'', [''part_part'']), (''stock'', [''stock_stockitem''])] =
     Returned [warning_header, ''- orders_order'']"
  by (simp add: missing_def extra_def keys_def resourcesFor_def test_ruleset_models_def
      test_model_names_def available_tables_def missing_models_def report_def item_def
      assertEqual_def)

section \<open>Properties of the startup hooks\<close>

subsection \<open>add\_user\_on\_startup\<close>

lemma truthy_py_and: "truthy (py_and a b) = (truthy a \<and> truthy b)"
  unfolding py_and_def by simp

lemma all_settings_truthy:
  "truthy (py_and (py_and (add_user env) (add_email env)) (add_password env)) =
     (truthy (add_user env) \<and> truthy (add_email env) \<and> truthy (add_password env))"
  by (simp add: truthy_py_and)

lemma add_user_on_startup_falsy:
  assumes "\<not> (truthy (add_user env) \<and> truthy (add_email env) \<and> truthy (add_password env))"
  shows "add_user_on_startup env st = st\<lparr>log := log st @ [(WARNING, settings_warning)]\<rparr>"
  using assms unfolding add_user_on_startup_def all_settings_truthy logger_def by simp

lemma add_user_on_startup_truthy:
  assumes "truthy (add_user env) \<and> truthy (add_email env) \<and> truthy (add_password env)"
  shows "db (add_user_on_startup env st) =
           snd (create_user env (db st) (add_user env) (add_email env) (add_password env))"
  using assms unfolding add_user_on_startup_def all_settings_truthy logger_def
  by (simp split: prod.splits sum.splits)

text \<open>
  Claim C8. When one of the three settings is falsy, \<^verbatim>\<open>add_user_on_startup\<close> appends one
  warning to the log and changes nothing else. So the database changes only when all three
  are truthy; and then it is \<^verbatim>\<open>create_user\<close>, applied to the three values, that
  changes it.
\<close>

theorem add_user_needs_all_settings:
  "(\<not> (truthy (add_user env) \<and> truthy (add_email env) \<and> truthy (add_password env)) \<longrightarrow>
      add_user_on_startup env st = st\<lparr>log := log st @ [(WARNING, settings_warning)]\<rparr>) \<and>
   (db (add_user_on_startup env st) \<noteq> db st \<longrightarrow>
      truthy (add_user env) \<and> truthy (add_email env) \<and> truthy (add_password env)) \<and>
   (truthy (add_user env) \<and> truthy (add_email env) \<and> truthy (add_password env) \<longrightarrow>
      db (add_user_on_startup env st) =
        snd (create_user env (db st) (add_user env) (add_email env) (add_password env)))"
proof (intro conjI)
  show "\<not> (truthy (add_user env) \<and> truthy (add_email env) \<and> truthy (add_password env)) \<longrightarrow>
      add_user_on_startup env st = st\<lparr>log := log st @ [(WARNING, settings_warning)]\<rparr>"
    using add_user_on_startup_falsy [of env st] by blast
  show "db (add_user_on_startup env st) \<noteq> db st \<longrightarrow>
      truthy (add_user env) \<and> truthy (add_email env) \<and> truthy (add_password env)"
  proof
    assume changed: "db (add_user_on_startup env st) \<noteq> db st"
    show "truthy (add_user env) \<and> truthy (add_email env) \<and> truthy (add_password env)"
    proof (rule ccontr)
      assume "\<not> (truthy (add_user env) \<and> truthy (add_email env) \<and> truthy (add_password env))"
      then have "add_user_on_startup env st = st\<lparr>log := log st @ [(WARNING, settings_warning)]\<rparr>"
        by (rule add_user_on_startup_falsy)
      then have "db (add_user_on_startup env st) = db st" by simp
      with changed show False by contradiction
    qed
  qed
  show "truthy (add_user env) \<and> truthy (add_email env) \<and> truthy (add_password env) \<longrightarrow>
      db (add_user_on_startup env st) =
        snd (create_user env (db st) (add_user env) (add_email env) (add_password env))"
    using add_user_on_startup_truthy [of env st] by blast
qed

theorem add_user_needs_all_settings_witness:
  "add_user_on_startup (example_env\<lparr>CONFIG := [''set_user'' \<mapsto> PyStr ''admin'']\<rparr>) example_state =
     example_state\<lparr>log := [(WARNING, settings_warning)]\<rparr> \<and>
   db (add_user_on_startup example_env example_state) = [''admin''] \<and>
   truthy (add_email example_env)"
  using add_user_needs_all_settings
      [of "example_env\<lparr>CONFIG := [''set_user'' \<mapsto> PyStr ''admin'']\<rparr>" example_state]
    add_user_needs_all_settings [of example_env example_state]
  by (simp add: example_env_def example_state_def add_user_def add_email_def add_password_def
      dict_get_def)

subsection \<open>remove\_obsolete\_tasks\<close>

lemma mem_obsolete:
  "(f \<in> set obsolete) =
     (f = ''InvenTree.tasks.delete_expired_sessions'' \<or> f = ''stock.tasks.delete_old_stock_items'')"
  unfolding obsolete_def by simp

text \<open>
  Claim C9, as the code has it. When \<^verbatim>\<open>django_q.models\<close> can be imported, the rows left in
  the \<^verbatim>\<open>Schedule\<close> table are exactly the rows whose \<open>func\<close> is neither of the two
  obsolete names; when the import raises \<^verbatim>\<open>AppRegistryNotReady\<close> the method returns
  and nothing is deleted. In both cases the rows with another \<open>func\<close> stay as they are,
  in their order, and nothing but the table changes.
\<close>

theorem remove_obsolete_tasks_frame:
  "(schedule_importable env \<longrightarrow>
      (\<forall>s. (s \<in> set (schedules (remove_obsolete_tasks env st))) =
             (s \<in> set (schedules st) \<and>
              func s \<noteq> ''InvenTree.tasks.delete_expired_sessions'' \<and>
              func s \<noteq> ''stock.tasks.delete_old_stock_items''))) \<and>
   (\<not> schedule_importable env \<longrightarrow> remove_obsolete_tasks env st = st) \<and>
   filter (\<lambda>s. func s \<notin> set obsolete) (schedules (remove_obsolete_tasks env st)) =
     filter (\<lambda>s. func s \<notin> set obsolete) (schedules st) \<and>
   remove_obsolete_tasks env st = st\<lparr>schedules := schedules (remove_obsolete_tasks env st)\<rparr>"
proof (intro conjI)
  show "schedule_importable env \<longrightarrow>
      (\<forall>s. (s \<in> set (schedules (remove_obsolete_tasks env st))) =
             (s \<in> set (schedules st) \<and>
              func s \<noteq> ''InvenTree.tasks.delete_expired_sessions'' \<and>
              func s \<noteq> ''stock.tasks.delete_old_stock_items''))"
    by (simp add: remove_obsolete_tasks_def mem_obsolete)
  show "\<not> schedule_importable env \<longrightarrow> remove_obsolete_tasks env st = st"
    by (simp add: remove_obsolete_tasks_def)
  show "filter (\<lambda>s. func s \<notin> set obsolete) (schedules (remove_obsolete_tasks env st)) =
          filter (\<lambda>s. func s \<notin> set obsolete) (schedules st)"
    by (simp add: remove_obsolete_tasks_def)
  show "remove_obsolete_tasks env st = st\<lparr>schedules := schedules (remove_obsolete_tasks env st)\<rparr>"
    by (simp add: remove_obsolete_tasks_def)
qed

theorem remove_obsolete_tasks_frame_witness:
  "\<lparr>func = ''InvenTree.tasks.heartbeat'', schedule_type = MINUTES, minutes = Some 15\<rparr>
     \<in> set (schedules (remove_obsolete_tasks example_env example_state)) \<and>
   \<lparr>func = ''stock.tasks.delete_old_stock_items'', schedule_type = DAILY, minutes = None\<rparr>
     \<notin> set (schedules (remove_obsolete_tasks example_env example_state)) \<and>
   remove_obsolete_tasks (example_env\<lparr>schedule_importable := False\<rparr>) example_state =
     example_state"
proof -
  let ?heartbeat = "\<lparr>func = ''InvenTree.tasks.heartbeat'', schedule_type = MINUTES,
                     minutes = Some 15\<rparr>"
  let ?old = "\<lparr>func = ''stock.tasks.delete_old_stock_items'', schedule_type = DAILY,
               minutes = None\<rparr>"
  have imp: "schedule_importable example_env"
    by (simp add: example_env_def)
  have rows: "schedules example_state = [?old, ?heartbeat]"
    by (simp add: example_state_def)
  from remove_obsolete_tasks_frame [of example_env example_state] imp
  have mem: "\<forall>s. (s \<in> set (schedules (remove_obsolete_tasks example_env example_state))) =
                 (s \<in> set (schedules example_state) \<and>
                  func s \<noteq> ''InvenTree.tasks.delete_expired_sessions'' \<and>
                  func s \<noteq> ''stock.tasks.delete_old_stock_items'')"
    by blast
  have h: "?heartbeat \<in> set (schedules (remove_obsolete_tasks example_env example_state))"
    unfolding mem [rule_format] rows by simp
  have o: "?old \<notin> set (schedules (remove_obsolete_tasks example_env example_state))"
    unfolding mem [rule_format] rows by simp
  have "\<not> schedule_importable (example_env\<lparr>schedule_importable := False\<rparr>)"
    by simp
  with remove_obsolete_tasks_frame [of "example_env\<lparr>schedule_importable := False\<rparr>" example_state]
  have u: "remove_obsolete_tasks (example_env\<lparr>schedule_importable := False\<rparr>) example_state =
             example_state"
    by blast
  from h o u show ?thesis by blast
qed

text \<open>
  When the import raises, a row of \<^verbatim>\<open>stock.tasks.delete_old_stock_items\<close> is still in
  the table after the call.
\<close>

theorem remove_obsolete_tasks_frame_counterexample:
  "remove_obsolete_tasks (example_env\<lparr>schedule_importable := False\<rparr>) example_state =
     example_state \<and>
   \<lparr>func = ''stock.tasks.delete_old_stock_items'', schedule_type = DAILY, minutes = None\<rparr>
     \<in> set (schedules (remove_obsolete_tasks (example_env\<lparr>schedule_importable := False\<rparr>)
                         example_state)) \<and>
   ''stock.tasks.delete_old_stock_items'' \<in> set obsolete"
  by (simp add: remove_obsolete_tasks_def example_state_def obsolete_def)

subsection \<open>ready\<close>

lemma calls_invoke: "calls (invoke c st) = calls st @ [(c, schedules st)]"
  by (simp add: invoke_def)

lemma schedules_invoke: "schedules (invoke c st) = schedules st"
  by (simp add: invoke_def)

lemma calls_remove_obsolete_tasks: "calls (remove_obsolete_tasks env st) = calls st"
  by (simp add: remove_obsolete_tasks_def)

lemma calls_start_background_tasks: "calls (start_background_tasks env st) = calls st"
  by (simp add: start_background_tasks_def call_schedule_task_def logger_def Let_def)

lemma calls_add_user_on_startup: "calls (add_user_on_startup env st) = calls st"
  by (simp add: add_user_on_startup_def logger_def split: prod.splits sum.splits)

lemma calls_update_exchange_rates: "calls (final (update_exchange_rates env st)) = calls st"
  by (simp add: update_exchange_rates_def logger_def Let_def
      split: backend_get.splits prod.splits option.splits)

lemma schedules_update_exchange_rates:
  "schedules (final (update_exchange_rates env st)) = schedules st"
  by (simp add: update_exchange_rates_def logger_def Let_def
      split: backend_get.splits prod.splits option.splits)

lemma update_exchange_rates_returns:
  "passes (update_exchange_rates env st) = exchange_importable env"
  by (simp add: update_exchange_rates_def Let_def split: backend_get.splits)

lemma schedules_remove_obsolete_tasks:
  "schedules (remove_obsolete_tasks env st) =
     (if schedule_importable env
      then filter (\<lambda>s. func s \<noteq> ''InvenTree.tasks.delete_expired_sessions'' \<and>
                        func s \<noteq> ''stock.tasks.delete_old_stock_items'') (schedules st)
      else schedules st)"
  by (simp add: remove_obsolete_tasks_def mem_obsolete)

lemma schedules_start_background_tasks:
  "schedules (start_background_tasks env st) =
     (if schedule_importable env
      then foldl (\<lambda>table (taskname, ty, mins). schedule_task env taskname ty mins table)
             (schedules st)
             [(''InvenTree.tasks.delete_successful_tasks'', DAILY, None),
              (''InvenTree.tasks.check_for_updates'', DAILY, None),
              (''InvenTree.tasks.heartbeat'', MINUTES, Some 15),
              (''InvenTree.tasks.update_exchange_rates'', DAILY, None),
              (''InvenTree.tasks.delete_old_error_logs'', DAILY, None),
              (''common.tasks.delete_old_notifications'', DAILY, None)]
      else schedules st)"
  by (simp add: start_background_tasks_def call_schedule_task_def logger_def Let_def)


lemma calls_ready:
  fixes env :: "'db env" and st :: "'db app_state"
  defines "kept \<equiv>
     (if schedule_importable env
      then filter (\<lambda>s. func s \<noteq> ''InvenTree.tasks.delete_expired_sessions'' \<and>
                        func s \<noteq> ''stock.tasks.delete_old_stock_items'') (schedules st)
      else schedules st)"
  defines "scheduled \<equiv>
     (if schedule_importable env
      then foldl (\<lambda>table (taskname, ty, mins). schedule_task env taskname ty mins table)
             kept
             [(''InvenTree.tasks.delete_successful_tasks'', DAILY, None),
              (''InvenTree.tasks.check_for_updates'', DAILY, None),
              (''InvenTree.tasks.heartbeat'', MINUTES, Some 15),
              (''InvenTree.tasks.update_exchange_rates'', DAILY, None),
              (''InvenTree.tasks.delete_old_error_logs'', DAILY, None),
              (''common.tasks.delete_old_notifications'', DAILY, None)]
      else kept)"
  shows "calls (final (ready env st)) =
     calls st @
       (if canAppAccessDatabase env
        then [(RemoveObsoleteTasks, schedules st), (StartBackgroundTasks, kept)]
               @ (if isInTestMode env then [] else [(UpdateExchangeRates, scheduled)])
               @ (if isInTestMode env \<or> exchange_importable env
                  then [(AddUserOnStartup, scheduled)] else [])
        else [])"
proof (cases "canAppAccessDatabase env")
  case False
  then show ?thesis by (simp add: ready_def)
next
  case can: True
  let ?st1 = "remove_obsolete_tasks env (invoke RemoveObsoleteTasks st)"
  let ?st2 = "start_background_tasks env (invoke StartBackgroundTasks ?st1)"
  have s1: "schedules ?st1 = kept"
    unfolding kept_def by (simp add: schedules_remove_obsolete_tasks schedules_invoke)
  have c1: "calls ?st1 = calls st @ [(RemoveObsoleteTasks, schedules st)]"
    by (simp add: calls_remove_obsolete_tasks calls_invoke)
  have s2: "schedules ?st2 = scheduled"
    unfolding scheduled_def by (simp only: schedules_start_background_tasks schedules_invoke s1)
  have c2: "calls ?st2 =
      calls st @ [(RemoveObsoleteTasks, schedules st), (StartBackgroundTasks, kept)]"
    by (simp add: calls_start_background_tasks calls_invoke c1 s1)
  have r: "ready env st =
      (if \<not> isInTestMode env then
         (case update_exchange_rates env (invoke UpdateExchangeRates ?st2) of
            Raised e st3 \<Rightarrow> Raised e st3
          | Returned st3 \<Rightarrow> Returned (add_user_on_startup env (invoke AddUserOnStartup st3)))
       else Returned (add_user_on_startup env (invoke AddUserOnStartup ?st2)))"
    using can by (simp add: ready_def Let_def)
  show ?thesis
  proof (cases "isInTestMode env")
    case True
    with can show ?thesis
      by (simp add: r calls_add_user_on_startup calls_invoke c2 s2)
  next
    case test: False
    let ?r = "update_exchange_rates env (invoke UpdateExchangeRates ?st2)"
    have c3: "calls (final ?r) =
        calls st @ [(RemoveObsoleteTasks, schedules st), (StartBackgroundTasks, kept),
                    (UpdateExchangeRates, scheduled)]"
      by (simp add: calls_update_exchange_rates calls_invoke c2 s2)
    have s3: "schedules (final ?r) = scheduled"
      by (simp add: schedules_update_exchange_rates schedules_invoke s2)
    have p: "passes ?r = exchange_importable env"
      by (rule update_exchange_rates_returns)
    show ?thesis
    proof (cases ?r)
      case (Returned st3)
      with p c3 s3 have "exchange_importable env" "calls st3 =
          calls st @ [(RemoveObsoleteTasks, schedules st), (StartBackgroundTasks, kept),
                      (UpdateExchangeRates, scheduled)]" "schedules st3 = scheduled"
        by simp_all
      with can test show ?thesis
        by (simp add: r Returned calls_add_user_on_startup calls_invoke)
    next
      case (Raised e st3)
      with p c3 have "\<not> exchange_importable env" "calls st3 =
          calls st @ [(RemoveObsoleteTasks, schedules st), (StartBackgroundTasks, kept),
                      (UpdateExchangeRates, scheduled)]"
        by simp_all
      with can test show ?thesis
        by (simp add: r Raised)
    qed
  qed
qed


text \<open>
  Claim C10, as the code has it. \<^verbatim>\<open>ready\<close> extends the history of calls by \<open>new\<close>. It
  calls \<^verbatim>\<open>update_exchange_rates\<close> exactly when the database is accessible and the
  process is not in test mode. Then the first three calls are \<^verbatim>\<open>remove_obsolete_tasks\<close>,
  \<^verbatim>\<open>start_background_tasks\<close> and \<^verbatim>\<open>update_exchange_rates\<close>, in this order. When
  \<^verbatim>\<open>django_q.models\<close> can be imported, the \<^verbatim>\<open>Schedule\<close> table that
  \<^verbatim>\<open>update_exchange_rates\<close> finds is the table at startup without the rows of the two
  obsolete names, after the six calls of \<^verbatim>\<open>schedule_task\<close>; when the import raises
  \<^verbatim>\<open>AppRegistryNotReady\<close>, it is the table at startup, unchanged.
\<close>

theorem update_exchange_rates_call:
  "\<exists>new. calls (final (ready env st)) = calls st @ new \<and>
     (UpdateExchangeRates \<in> fst ` set new) =
       (canAppAccessDatabase env \<and> \<not> isInTestMode env) \<and>
     (isInTestMode env \<or> \<not> canAppAccessDatabase env \<longrightarrow>
        UpdateExchangeRates \<notin> fst ` set new) \<and>
     (UpdateExchangeRates \<in> fst ` set new \<longrightarrow>
        take 3 new =
          (let kept = filter (\<lambda>s. func s \<noteq> ''InvenTree.tasks.delete_expired_sessions'' \<and>
                                   func s \<noteq> ''stock.tasks.delete_old_stock_items'')
                        (schedules st);
               scheduled =
                 foldl (\<lambda>table (taskname, ty, mins). schedule_task env taskname ty mins table)
                   kept
                   [(''InvenTree.tasks.delete_successful_tasks'', DAILY, None),
                  (''InvenTree.tasks.check_for_updates'', DAILY, None),
                  (''InvenTree.tasks.heartbeat'', MINUTES, Some 15),
                  (''InvenTree.tasks.update_exchange_rates'', DAILY, None),
                  (''InvenTree.tasks.delete_old_error_logs'', DAILY, None),
                  (''common.tasks.delete_old_notifications'', DAILY, None)]
           in if schedule_importable env
              then [(RemoveObsoleteTasks, schedules st),
                    (StartBackgroundTasks, kept),
                    (UpdateExchangeRates, scheduled)]
              else [(RemoveObsoleteTasks, schedules st),
                    (StartBackgroundTasks, schedules st),
                    (UpdateExchangeRates, schedules st)]))"
proof (cases "canAppAccessDatabase env")
  case False
  then have "calls (final (ready env st)) = calls st @ []"
    by (simp add: calls_ready)
  with False show ?thesis by force
next
  case can: True
  show ?thesis
  proof (cases "isInTestMode env")
    case True
    with can have "\<exists>k u. calls (final (ready env st)) =
        calls st @ [(RemoveObsoleteTasks, schedules st), (StartBackgroundTasks, k),
                    (AddUserOnStartup, u)]"
      by (simp add: calls_ready)
    then obtain k u where "calls (final (ready env st)) =
        calls st @ [(RemoveObsoleteTasks, schedules st), (StartBackgroundTasks, k),
                    (AddUserOnStartup, u)]"
      by blast
    with can True show ?thesis by force
  next
    case test: False
    show ?thesis
    proof (cases "schedule_importable env")
      case imp: True
      let ?kept = "filter (\<lambda>s. func s \<noteq> ''InvenTree.tasks.delete_expired_sessions'' \<and>
                                func s \<noteq> ''stock.tasks.delete_old_stock_items'') (schedules st)"
      let ?scheduled =
        "foldl (\<lambda>table (taskname, ty, mins). schedule_task env taskname ty mins table)
           ?kept
           [(''InvenTree.tasks.delete_successful_tasks'', DAILY, None),
                  (''InvenTree.tasks.check_for_updates'', DAILY, None),
                  (''InvenTree.tasks.heartbeat'', MINUTES, Some 15),
                  (''InvenTree.tasks.update_exchange_rates'', DAILY, None),
                  (''InvenTree.tasks.delete_old_error_logs'', DAILY, None),
                  (''common.tasks.delete_old_notifications'', DAILY, None)]"
      let ?rest = "if exchange_importable env then [(AddUserOnStartup, ?scheduled)] else []"
      let ?new = "[(RemoveObsoleteTasks, schedules st), (StartBackgroundTasks, ?kept),
                   (UpdateExchangeRates, ?scheduled)] @ ?rest"
      from can test imp have "calls (final (ready env st)) = calls st @ ?new"
        by (simp add: calls_ready)
      moreover have "UpdateExchangeRates \<in> fst ` set ?new" by simp
      moreover have "take 3 ?new =
          [(RemoveObsoleteTasks, schedules st), (StartBackgroundTasks, ?kept),
           (UpdateExchangeRates, ?scheduled)]"
        by (simp add: numeral_3_eq_3)
      ultimately show ?thesis
        using can test imp unfolding Let_def by (intro exI [of _ ?new]) (simp only: simp_thms if_True)
    next
      case imp: False
      let ?rest = "if exchange_importable env then [(AddUserOnStartup, schedules st)] else []"
      let ?new = "[(RemoveObsoleteTasks, schedules st), (StartBackgroundTasks, schedules st),
                   (UpdateExchangeRates, schedules st)] @ ?rest"
      from can test imp have "calls (final (ready env st)) = calls st @ ?new"
        by (simp add: calls_ready)
      moreover have "UpdateExchangeRates \<in> fst ` set ?new" by simp
      moreover have "take 3 ?new =
          [(RemoveObsoleteTasks, schedules st), (StartBackgroundTasks, schedules st),
           (UpdateExchangeRates, schedules st)]"
        by (simp add: numeral_3_eq_3)
      ultimately show ?thesis
        using can test imp unfolding Let_def by (intro exI [of _ ?new]) (simp only: simp_thms if_False)
    qed
  qed
qed


theorem update_exchange_rates_call_witness:
  "take 3 (calls (final (ready example_env example_state))) =
     [(RemoveObsoleteTasks,
       [\<lparr>func = ''stock.tasks.delete_old_stock_items'', schedule_type = DAILY, minutes = None\<rparr>,
        \<lparr>func = ''InvenTree.tasks.heartbeat'', schedule_type = MINUTES, minutes = Some 15\<rparr>]),
      (StartBackgroundTasks,
       [\<lparr>func = ''InvenTree.tasks.heartbeat'', schedule_type = MINUTES, minutes = Some 15\<rparr>]),
      (UpdateExchangeRates,
       [\<lparr>func = ''InvenTree.tasks.heartbeat'', schedule_type = MINUTES, minutes = Some 15\<rparr>,
             \<lparr>func = ''InvenTree.tasks.delete_successful_tasks'', schedule_type = DAILY,
               minutes = None\<rparr>,
             \<lparr>func = ''InvenTree.tasks.check_for_updates'', schedule_type = DAILY, minutes = None\<rparr>,
             \<lparr>func = ''InvenTree.tasks.heartbeat'', schedule_type = MINUTES, minutes = Some 15\<rparr>,
             \<lparr>func = ''InvenTree.tasks.update_exchange_rates'', schedule_type = DAILY,
               minutes = None\<rparr>,
             \<lparr>func = ''InvenTree.tasks.delete_old_error_logs'', schedule_type = DAILY,
               minutes = None\<rparr>,
             \<lparr>func = ''common.tasks.delete_old_notifications'', schedule_type = DAILY,
               minutes = None\<rparr>])] \<and>
   UpdateExchangeRates \<notin>
     fst ` set (calls (final (ready (example_env\<lparr>isInTestMode := True\<rparr>) example_state))) \<and>
   UpdateExchangeRates \<notin>
     fst ` set (calls (final (ready (example_env\<lparr>canAppAccessDatabase := False\<rparr>) example_state)))"
proof -
  have c: "calls example_state = []"
    by (simp add: example_state_def)
  have rows: "schedules example_state =
      [\<lparr>func = ''stock.tasks.delete_old_stock_items'', schedule_type = DAILY, minutes = None\<rparr>,
       \<lparr>func = ''InvenTree.tasks.heartbeat'', schedule_type = MINUTES, minutes = Some 15\<rparr>]"
    by (simp add: example_state_def)
  have e: "canAppAccessDatabase example_env" "\<not> isInTestMode example_env"
      "schedule_importable example_env"
      "schedule_task example_env =
         (\<lambda>taskname ty mins table.
            table @ [\<lparr>func = taskname, schedule_type = ty, minutes = mins\<rparr>])"
    by (simp_all add: example_env_def)
  from update_exchange_rates_call [of example_env example_state]
  obtain new where n: "calls (final (ready example_env example_state)) = new"
      and t: "UpdateExchangeRates \<in> fst ` set new \<longrightarrow>
        take 3 new =
          [(RemoveObsoleteTasks,
            [\<lparr>func = ''stock.tasks.delete_old_stock_items'', schedule_type = DAILY,
               minutes = None\<rparr>,
             \<lparr>func = ''InvenTree.tasks.heartbeat'', schedule_type = MINUTES,
               minutes = Some 15\<rparr>]),
           (StartBackgroundTasks,
            [\<lparr>func = ''InvenTree.tasks.heartbeat'', schedule_type = MINUTES,
               minutes = Some 15\<rparr>]),
           (UpdateExchangeRates,
            [\<lparr>func = ''InvenTree.tasks.heartbeat'', schedule_type = MINUTES, minutes = Some 15\<rparr>,
             \<lparr>func = ''InvenTree.tasks.delete_successful_tasks'', schedule_type = DAILY,
               minutes = None\<rparr>,
             \<lparr>func = ''InvenTree.tasks.check_for_updates'', schedule_type = DAILY, minutes = None\<rparr>,
             \<lparr>func = ''InvenTree.tasks.heartbeat'', schedule_type = MINUTES, minutes = Some 15\<rparr>,
             \<lparr>func = ''InvenTree.tasks.update_exchange_rates'', schedule_type = DAILY,
               minutes = None\<rparr>,
             \<lparr>func = ''InvenTree.tasks.delete_old_error_logs'', schedule_type = DAILY,
               minutes = None\<rparr>,
             \<lparr>func = ''common.tasks.delete_old_notifications'', schedule_type = DAILY,
               minutes = None\<rparr>])]"
      and u: "(UpdateExchangeRates \<in> fst ` set new) =
                (canAppAccessDatabase example_env \<and> \<not> isInTestMode example_env)"
    unfolding c rows Let_def e(4) by (auto simp: e(3))
  from u e have "UpdateExchangeRates \<in> fst ` set new" by simp
  with t n have first: "take 3 (calls (final (ready example_env example_state))) =
     [(RemoveObsoleteTasks,
       [\<lparr>func = ''stock.tasks.delete_old_stock_items'', schedule_type = DAILY, minutes = None\<rparr>,
        \<lparr>func = ''InvenTree.tasks.heartbeat'', schedule_type = MINUTES, minutes = Some 15\<rparr>]),
      (StartBackgroundTasks,
       [\<lparr>func = ''InvenTree.tasks.heartbeat'', schedule_type = MINUTES, minutes = Some 15\<rparr>]),
      (UpdateExchangeRates,
       [\<lparr>func = ''InvenTree.tasks.heartbeat'', schedule_type = MINUTES, minutes = Some 15\<rparr>,
             \<lparr>func = ''InvenTree.tasks.delete_successful_tasks'', schedule_type = DAILY,
               minutes = None\<rparr>,
             \<lparr>func = ''InvenTree.tasks.check_for_updates'', schedule_type = DAILY, minutes = None\<rparr>,
             \<lparr>func = ''InvenTree.tasks.heartbeat'', schedule_type = MINUTES, minutes = Some 15\<rparr>,
             \<lparr>func = ''InvenTree.tasks.update_exchange_rates'', schedule_type = DAILY,
               minutes = None\<rparr>,
             \<lparr>func = ''InvenTree.tasks.delete_old_error_logs'', schedule_type = DAILY,
               minutes = None\<rparr>,
             \<lparr>func = ''common.tasks.delete_old_notifications'', schedule_type = DAILY,
               minutes = None\<rparr>])]"
    by blast
  from update_exchange_rates_call [of "example_env\<lparr>isInTestMode := True\<rparr>" example_state]
  have second: "UpdateExchangeRates \<notin>
      fst ` set (calls (final (ready (example_env\<lparr>isInTestMode := True\<rparr>) example_state)))"
    unfolding c by auto
  from update_exchange_rates_call [of "example_env\<lparr>canAppAccessDatabase := False\<rparr>" example_state]
  have third: "UpdateExchangeRates \<notin>
      fst ` set (calls (final (ready (example_env\<lparr>canAppAccessDatabase := False\<rparr>) example_state)))"
    unfolding c by auto
  from first second third show ?thesis by blast
qed

text \<open>
  When the import raises, \<^verbatim>\<open>update_exchange_rates\<close> is called while the row of
  \<^verbatim>\<open>stock.tasks.delete_old_stock_items\<close> is still in the table and nothing has been
  scheduled.
\<close>

theorem update_exchange_rates_call_counterexample:
  "(UpdateExchangeRates, schedules example_state)
     \<in> set (calls (final (ready (example_env\<lparr>schedule_importable := False\<rparr>) example_state))) \<and>
   \<lparr>func = ''stock.tasks.delete_old_stock_items'', schedule_type = DAILY, minutes = None\<rparr>
     \<in> set (schedules example_state) \<and>
   ''stock.tasks.delete_old_stock_items'' \<in> set obsolete \<and>
   schedules (remove_obsolete_tasks (example_env\<lparr>schedule_importable := False\<rparr>) example_state) =
     schedules example_state \<and>
   schedules (start_background_tasks (example_env\<lparr>schedule_importable := False\<rparr>)
     example_state) = schedules example_state"
proof -
  let ?env = "example_env\<lparr>schedule_importable := False\<rparr>"
  have e: "canAppAccessDatabase ?env" "\<not> isInTestMode ?env" "\<not> schedule_importable ?env"
    by (simp_all add: example_env_def)
  have "calls (final (ready ?env example_state)) =
      calls example_state @
        ([(RemoveObsoleteTasks, schedules example_state),
          (StartBackgroundTasks, schedules example_state)]
         @ [(UpdateExchangeRates, schedules example_state)]
         @ (if exchange_importable ?env then [(AddUserOnStartup, schedules example_state)]
            else []))"
    unfolding calls_ready using e by simp
  then have a: "(UpdateExchangeRates, schedules example_state)
      \<in> set (calls (final (ready ?env example_state)))"
    by simp
  have b: "\<lparr>func = ''stock.tasks.delete_old_stock_items'', schedule_type = DAILY, minutes = None\<rparr>
      \<in> set (schedules example_state)"
    by (simp add: example_state_def)
  have c: "''stock.tasks.delete_old_stock_items'' \<in> set obsolete"
    by (simp add: obsolete_def)
  have d: "schedules (remove_obsolete_tasks ?env example_state) = schedules example_state"
    using e by (simp add: remove_obsolete_tasks_def)
  have f: "schedules (start_background_tasks ?env example_state) = schedules example_state"
    using e by (simp add: start_background_tasks_def)
  from a b c d f show ?thesis by blast
qed

end
